theory Spec2Isabelle
  imports Complex_Main "HOL-Library.List_Lexorder" "HOL-Library.Char_ord"
begin

section \<open>The to-do list of app.py: tasks, the task manager and the session store\<close>

subsection \<open>Values, dictionaries and the world outside the manager\<close>

text \<open>
  Python values are untyped. The attributes of a task and the values of a keyword
  argument are integers or strings here; on these two kinds Python's \<open>==\<close> is
  equality of the values.
\<close>

datatype pyval = PInt int | PStr string

text \<open>
  A dict with string keys, in insertion order. \<open>data[key]\<close> raises KeyError when the
  key is absent.
\<close>

type_synonym dict = "(string \<times> pyval) list"

datatype error = KeyError string | TypeError | AttributeError

definition getitem :: "dict \<Rightarrow> string \<Rightarrow> error + pyval" where
  "getitem data key = (case map_of data key of None \<Rightarrow> Inl (KeyError key) | Some v \<Rightarrow> Inr v)"

text \<open>
  What the code reads and writes outside its own objects:
  \<^item> \<open>session_tasks\<close> is \<open>st.session_state\<close> at the key \<open>tasks\<close>: \<open>None\<close> when the key
    is absent, the stored list of dicts otherwise;
  \<^item> \<open>clock w n\<close> is the string that the \<open>n\<close>-th evaluation of
    \<open>datetime.now().isoformat()\<close> returns, and \<open>ticks\<close> counts the evaluations so far.
  The clock is the wall clock of the machine: nothing in the code constrains its readings.
\<close>

record world =
  session_tasks :: "dict list option"
  clock :: "nat \<Rightarrow> string"
  ticks :: nat

definition now_isoformat :: "world \<Rightarrow> string \<times> world" where
  "now_isoformat w = (clock w (ticks w), w\<lparr>ticks := Suc (ticks w)\<rparr>)"

subsection \<open>class Task\<close>

text \<open>The attribute \<open>id\<close> is the field \<open>id'\<close>: \<open>id\<close> is the identity function of HOL.\<close>

record Task =
  id' :: pyval
  title :: pyval
  description :: pyval
  status :: pyval
  created_at :: pyval
  updated_at :: pyval

text \<open>\<open>_generate_id\<close>: \<open>len(st.session_state.get('tasks', [])) + 1\<close>.\<close>

definition generate_id :: "world \<Rightarrow> int" where
  "generate_id w = int (length (case session_tasks w of None \<Rightarrow> [] | Some ds \<Rightarrow> ds)) + 1"

text \<open>\<open>Task.__init__\<close>: the clock is read twice, once for each timestamp.\<close>

definition Task_init :: "pyval \<Rightarrow> pyval \<Rightarrow> pyval \<Rightarrow> world \<Rightarrow> Task \<times> world" where
  "Task_init title' description' status' w =
     (let i = generate_id w;
          (c, w1) = now_isoformat w;
          (u, w2) = now_isoformat w1
      in (\<lparr>id' = PInt i, title = title', description = description', status = status',
           created_at = PStr c, updated_at = PStr u\<rparr>, w2))"

definition to_dict :: "Task \<Rightarrow> dict" where
  "to_dict t =
     [(''id'', id' t), (''title'', title t), (''description'', description t),
      (''status'', status t), (''created_at'', created_at t), (''updated_at'', updated_at t)]"

text \<open>
  \<open>Task.from_dict\<close>: the three arguments of the constructor are looked up first, the
  constructor runs (reading the clock), then the three remaining keys are looked up and
  assigned. The first missing key raises.
\<close>

definition from_dict :: "dict \<Rightarrow> world \<Rightarrow> (error + Task) \<times> world" where
  "from_dict data w =
     (case getitem data ''title'' of Inl e \<Rightarrow> (Inl e, w) | Inr ti \<Rightarrow>
      case getitem data ''description'' of Inl e \<Rightarrow> (Inl e, w) | Inr de \<Rightarrow>
      case getitem data ''status'' of Inl e \<Rightarrow> (Inl e, w) | Inr st \<Rightarrow>
      let (task, w') = Task_init ti de st w in
      case getitem data ''id'' of Inl e \<Rightarrow> (Inl e, w') | Inr i \<Rightarrow>
      case getitem data ''created_at'' of Inl e \<Rightarrow> (Inl e, w') | Inr c \<Rightarrow>
      case getitem data ''updated_at'' of Inl e \<Rightarrow> (Inl e, w') | Inr u \<Rightarrow>
        (Inr (task\<lparr>id' := i, created_at := c, updated_at := u\<rparr>), w'))"

subsection \<open>class TaskManager\<close>

record TaskManager =
  tasks :: "Task list"

text \<open>The list comprehension of \<open>_load_tasks\<close>, stopping at the first KeyError.\<close>

fun load_list :: "dict list \<Rightarrow> world \<Rightarrow> (error + Task list) \<times> world" where
  "load_list [] w = (Inr [], w)"
| "load_list (d # ds) w =
     (case from_dict d w of
        (Inl e, w1) \<Rightarrow> (Inl e, w1)
      | (Inr t, w1) \<Rightarrow>
          (case load_list ds w1 of
             (Inl e, w2) \<Rightarrow> (Inl e, w2)
           | (Inr ts, w2) \<Rightarrow> (Inr (t # ts), w2)))"

definition load_tasks :: "TaskManager \<Rightarrow> world \<Rightarrow> (error + TaskManager) \<times> world" where
  "load_tasks m w =
     (let w1 = (case session_tasks w of None \<Rightarrow> w\<lparr>session_tasks := Some []\<rparr> | Some ds \<Rightarrow> w)
      in case load_list (case session_tasks w1 of None \<Rightarrow> [] | Some ds \<Rightarrow> ds) w1 of
           (Inl e, w2) \<Rightarrow> (Inl e, w2)
         | (Inr ts, w2) \<Rightarrow> (Inr (m\<lparr>tasks := ts\<rparr>), w2))"

definition TaskManager_init :: "world \<Rightarrow> (error + TaskManager) \<times> world" where
  "TaskManager_init w = load_tasks \<lparr>tasks = []\<rparr> w"

definition save_tasks :: "TaskManager \<Rightarrow> world \<Rightarrow> world" where
  "save_tasks m w = w\<lparr>session_tasks := Some (map to_dict (tasks m))\<rparr>"

definition add_task :: "string \<Rightarrow> string \<Rightarrow> TaskManager \<Rightarrow> world \<Rightarrow> Task \<times> TaskManager \<times> world" where
  "add_task title' description' m w =
     (let (task, w1) = Task_init (PStr title') (PStr description') (PStr ''pending'') w;
          m' = m\<lparr>tasks := tasks m @ [task]\<rparr>
      in (task, m', save_tasks m' w1))"

text \<open>The loop of \<open>get_task_by_id\<close> over \<open>self.tasks\<close>.\<close>

fun get_task_by_id :: "Task list \<Rightarrow> pyval \<Rightarrow> Task option" where
  "get_task_by_id [] task_id = None"
| "get_task_by_id (task # rest) task_id =
     (if id' task = task_id then Some task else get_task_by_id rest task_id)"

text \<open>
  \<open>get_task_by_id\<close> returns the object in the list, not a copy, and \<open>update_task\<close> and
  \<open>delete_task\<close> work on that object: the first element whose id matches.
  \<open>assign_found ts task_id t\<close> is the list once that object has become \<open>t\<close>;
  \<open>remove_found ts task_id\<close> is the list once \<open>self.tasks.remove\<close> has taken it out
  (a Task has no \<open>__eq__\<close>, so \<open>remove\<close> compares by identity).
\<close>

fun assign_found :: "Task list \<Rightarrow> pyval \<Rightarrow> Task \<Rightarrow> Task list" where
  "assign_found [] task_id t = []"
| "assign_found (task # rest) task_id t =
     (if id' task = task_id then t # rest else task # assign_found rest task_id t)"

fun remove_found :: "Task list \<Rightarrow> pyval \<Rightarrow> Task list" where
  "remove_found [] task_id = []"
| "remove_found (task # rest) task_id =
     (if id' task = task_id then rest else task # remove_found rest task_id)"

text \<open>
  The six attributes that \<open>__init__\<close> sets, and \<open>setattr\<close> on them.
\<close>

definition attributes :: "string list" where
  "attributes = [''id'', ''title'', ''description'', ''status'', ''created_at'', ''updated_at'']"

definition setattr :: "Task \<Rightarrow> string \<Rightarrow> pyval \<Rightarrow> Task" where
  "setattr task key v =
     (if key = ''id'' then task\<lparr>id' := v\<rparr>
      else if key = ''title'' then task\<lparr>title := v\<rparr>
      else if key = ''description'' then task\<lparr>description := v\<rparr>
      else if key = ''status'' then task\<lparr>status := v\<rparr>
      else if key = ''created_at'' then task\<lparr>created_at := v\<rparr>
      else if key = ''updated_at'' then task\<lparr>updated_at := v\<rparr>
      else task)"

text \<open>
  One round of the loop of \<open>update_task\<close>:
  \<^verbatim>\<open>if hasattr(task, key): setattr(task, key, value)\<close>.
  \<open>hasattr\<close> holds of more names than the six data attributes: of the methods that the
  class defines (\<open>__init__\<close>, \<open>_generate_id\<close>, \<open>to_dict\<close>, \<open>from_dict\<close>) and of what every
  object inherits (\<open>__class__\<close>, \<open>__dict__\<close>, \<open>__weakref__\<close>, \<open>__doc__\<close>, \<open>__eq__\<close> and the
  like). With a value that is an integer or a string, \<open>setattr\<close> on such a name
  \<^item> raises TypeError for \<open>__class__\<close> and \<open>__dict__\<close>, and AttributeError for
    \<open>__weakref__\<close>, which is not writable;
  \<^item> otherwise stores an attribute of the object that hides what the class provides.
    For \<open>to_dict\<close> that makes \<open>task.to_dict()\<close> raise TypeError from then on (the value
    is not callable). The other names are looked up on the class (\<open>Task.from_dict\<close>, the
    special methods) or used on new objects only (\<open>__init__\<close>, \<open>_generate_id\<close>); no
    method of \<open>Task\<close> or \<open>TaskManager\<close> reads them from the object.
  So the object is modelled by its six data attributes and by whether its \<open>to_dict\<close> is
  hidden; on every name that is neither a data attribute nor one of the four singled
  out, the round leaves this model of the object as it is, whether \<open>hasattr\<close> holds of
  the name or not.
\<close>

definition setattr_if_hasattr :: "string \<Rightarrow> pyval \<Rightarrow> Task \<times> bool \<Rightarrow> error + Task \<times> bool" where
  "setattr_if_hasattr key v ob =
     (case ob of (task, hidden) \<Rightarrow>
        if key \<in> set attributes then Inr (setattr task key v, hidden)
        else if key = ''to_dict'' then Inr (task, True)
        else if key = ''__class__'' \<or> key = ''__dict__'' then Inl TypeError
        else if key = ''__weakref__'' then Inl AttributeError
        else Inr (task, hidden))"

text \<open>
  The loop over \<open>kwargs.items()\<close>, in the order of the keywords. It stops at the first
  exception; the object keeps what the rounds before have assigned.
\<close>

fun set_items :: "(string \<times> pyval) list \<Rightarrow> Task \<times> bool \<Rightarrow> error option \<times> Task \<times> bool" where
  "set_items [] ob = (None, ob)"
| "set_items ((key, v) # kwargs) ob =
     (case setattr_if_hasattr key v ob of
        Inl e \<Rightarrow> (Some e, ob)
      | Inr ob' \<Rightarrow> set_items kwargs ob')"

text \<open>
  \<open>update_task\<close>. A keyword \<open>self\<close> or \<open>task_id\<close> collides with a parameter: the call
  raises TypeError before the body runs. In the body, an exception of the loop leaves
  the collection with what the loop has assigned, the clock unread and the snapshot
  untouched; a hidden \<open>to_dict\<close> makes \<open>_save_tasks\<close> raise TypeError after \<open>updated_at\<close>
  has been assigned, and the snapshot stays as it was.
  When the call raises, the manager in the result is the collection as to the data
  attributes of its tasks.
\<close>

definition update_task ::
  "pyval \<Rightarrow> (string \<times> pyval) list \<Rightarrow> TaskManager \<Rightarrow> world \<Rightarrow>
     (error + bool) \<times> TaskManager \<times> world" where
  "update_task task_id kwargs m w =
     (if ''self'' \<in> set (map fst kwargs) \<or> ''task_id'' \<in> set (map fst kwargs)
      then (Inl TypeError, m, w)
      else
        (case get_task_by_id (tasks m) task_id of
           Some task \<Rightarrow>
             (case set_items kwargs (task, False) of
                (Some e, task1, hidden) \<Rightarrow>
                  (Inl e, m\<lparr>tasks := assign_found (tasks m) task_id task1\<rparr>, w)
              | (None, task1, hidden) \<Rightarrow>
                  (let (u, w1) = now_isoformat w;
                       task2 = task1\<lparr>updated_at := PStr u\<rparr>;
                       m' = m\<lparr>tasks := assign_found (tasks m) task_id task2\<rparr>
                   in if hidden then (Inl TypeError, m', w1)
                      else (Inr True, m', save_tasks m' w1)))
         | None \<Rightarrow> (Inr False, m, w)))"

definition delete_task :: "pyval \<Rightarrow> TaskManager \<Rightarrow> world \<Rightarrow> bool \<times> TaskManager \<times> world" where
  "delete_task task_id m w =
     (case get_task_by_id (tasks m) task_id of
        Some task \<Rightarrow>
          (let m' = m\<lparr>tasks := remove_found (tasks m) task_id\<rparr>
           in (True, m', save_tasks m' w))
      | None \<Rightarrow> (False, m, w))"

text \<open>\<open>status_filter\<close> is \<open>None\<close> or a string; \<open>None\<close> and the empty string are falsy.\<close>

definition get_all_tasks :: "string option \<Rightarrow> TaskManager \<Rightarrow> Task list" where
  "get_all_tasks status_filter m =
     (case status_filter of
        None \<Rightarrow> tasks m
      | Some s \<Rightarrow> if s \<noteq> [] then filter (\<lambda>task. status task = PStr s) (tasks m) else tasks m)"




subsection \<open>The handler of the Add Task button\<close>

datatype message = Success string | Error string

definition add_task_button ::
  "string \<Rightarrow> string \<Rightarrow> TaskManager \<Rightarrow> world \<Rightarrow> message \<times> TaskManager \<times> world" where
  "add_task_button title' description' m w =
     (if title' \<noteq> [] then
        (let (task, m', w') = add_task title' description' m w
         in (Success (''Task '' @ [CHR 0x27] @ title' @ [CHR 0x27] @ '' added!''), m', w'))
      else (Error ''Title cannot be empty!'', m, w))"

subsection \<open>Sequences of calls\<close>

text \<open>
  The states that the interface of the manager reaches: a manager is constructed, and
  then its methods are called one after the other; every run of the script constructs
  the manager anew from the session store (\<open>Rerun\<close>).
\<close>

datatype call =
  Add string string
| Update pyval "(string \<times> pyval) list"
| Delete pyval
| Rerun

fun step :: "call \<Rightarrow> TaskManager \<times> world \<Rightarrow> error + TaskManager \<times> world" where
  "step (Add title' description') (m, w) =
     (case add_task title' description' m w of (task, m', w') \<Rightarrow> Inr (m', w'))"
| "step (Update task_id kwargs) (m, w) =
     (case update_task task_id kwargs m w of
        (Inl e, m', w') \<Rightarrow> Inl e
      | (Inr found, m', w') \<Rightarrow> Inr (m', w'))"
| "step (Delete task_id) (m, w) =
     (case delete_task task_id m w of (found, m', w') \<Rightarrow> Inr (m', w'))"
| "step Rerun (m, w) =
     (case TaskManager_init w of (Inl e, w') \<Rightarrow> Inl e | (Inr m', w') \<Rightarrow> Inr (m', w'))"

fun run :: "call list \<Rightarrow> TaskManager \<times> world \<Rightarrow> error + TaskManager \<times> world" where
  "run [] s = Inr s"
| "run (c # cs) s = (case step c s of Inl e \<Rightarrow> Inl e | Inr s' \<Rightarrow> run cs s')"

text \<open>A session starts with no snapshot in the store and with the clock given.\<close>

definition fresh :: "(nat \<Rightarrow> string) \<Rightarrow> world" where
  "fresh readings = \<lparr>session_tasks = None, clock = readings, ticks = 0\<rparr>"

definition session :: "(nat \<Rightarrow> string) \<Rightarrow> call list \<Rightarrow> error + TaskManager \<times> world" where
  "session readings cs =
     (case TaskManager_init (fresh readings) of
        (Inl e, w) \<Rightarrow> Inl e
      | (Inr m, w) \<Rightarrow> run cs (m, w))"

text \<open>A clock given by the list of its readings; the last one repeats.\<close>

definition clock_of :: "string list \<Rightarrow> nat \<Rightarrow> string" where
  "clock_of readings n = (if n < length readings then readings ! n else last readings)"

subsection \<open>The invariants of the data model\<close>

text \<open>
  Timestamps are the strings of \<open>isoformat\<close>; on them the order of the strings is the
  order of the moments. A value that is not a string is not a timestamp.
\<close>

fun ts_le :: "pyval \<Rightarrow> pyval \<Rightarrow> bool" where
  "ts_le (PStr a) (PStr b) = (a \<le> b)"
| "ts_le a b = False"

definition status_ok :: "Task \<Rightarrow> bool" where
  "status_ok t = (status t = PStr ''pending'' \<or> status t = PStr ''completed'')"

definition ids_unique :: "Task list \<Rightarrow> bool" where
  "ids_unique ts = distinct (map id' ts)"

definition invariants :: "Task list \<Rightarrow> bool" where
  "invariants ts =
     (ids_unique ts \<and> list_all (\<lambda>t. status_ok t \<and> ts_le (created_at t) (updated_at t)) ts)"

text \<open>The manager and the snapshot of the session store agree.\<close>

definition in_sync :: "TaskManager \<Rightarrow> world \<Rightarrow> bool" where
  "in_sync m w = (session_tasks w = Some (map to_dict (tasks m)))"

subsection \<open>Keyword arguments\<close>

text \<open>
  \<open>kwargs\<close> is a dict: its keys are distinct. \<open>provided kwargs key old\<close> is the value
  that \<open>kwargs\<close> gives for \<open>key\<close>, and \<open>old\<close> when it gives none.
  The keywords that can make \<open>update_task\<close> raise are the names of its parameters and the
  four names on which the loop or the saving raises.
\<close>

definition provided :: "(string \<times> pyval) list \<Rightarrow> string \<Rightarrow> pyval \<Rightarrow> pyval" where
  "provided kwargs key old = (case map_of kwargs key of None \<Rightarrow> old | Some v \<Rightarrow> v)"

definition raising_names :: "string list" where
  "raising_names = [''self'', ''task_id'', ''to_dict'', ''__class__'', ''__dict__'', ''__weakref__'']"

definition no_raising_name :: "(string \<times> pyval) list \<Rightarrow> bool" where
  "no_raising_name kwargs = list_all (\<lambda>key. key \<notin> set raising_names) (map fst kwargs)"


text \<open>
  The updates that keep the data model: no keyword on which the call raises, no
  assignment to \<open>created_at\<close>, and to \<open>status\<close> only pending or completed.
\<close>

definition conforming_item :: "string \<times> pyval \<Rightarrow> bool" where
  "conforming_item kv =
     (fst kv \<notin> set raising_names \<and> fst kv \<noteq> ''created_at'' \<and>
      (fst kv = ''status'' \<longrightarrow> snd kv = PStr ''pending'' \<or> snd kv = PStr ''completed''))"

fun conforming :: "call \<Rightarrow> bool" where
  "conforming (Update task_id kwargs) = list_all conforming_item kwargs"
| "conforming c = True"


definition stamped :: "(nat \<Rightarrow> string) \<Rightarrow> nat \<Rightarrow> Task \<Rightarrow> bool" where
  "stamped readings n t =
     (\<exists>j<n. \<exists>i\<le>j. created_at t = PStr (readings i) \<and> updated_at t = PStr (readings j))"

subsection \<open>Example data\<close>

text \<open>A clock that advances with every reading.\<close>

definition example_clock :: "nat \<Rightarrow> string" where
  "example_clock =
     clock_of [''2024-03-01T09:00:00.000001'', ''2024-03-01T09:00:00.000002'',
               ''2024-03-01T09:05:00.000003'', ''2024-03-01T09:05:00.000004'',
               ''2024-03-01T09:10:00.000005'', ''2024-03-01T09:10:00.000006'']"

text \<open>
  The states of a new session: the manager just constructed, after \<open>add_task\<close> of a
  first task, and after two tasks were added, the first deleted and a third added.
\<close>

definition new_manager :: TaskManager where
  "new_manager = \<lparr>tasks = []\<rparr>"

definition new_world :: world where
  "new_world = \<lparr>session_tasks = Some [], clock = example_clock, ticks = 0\<rparr>"

definition task_report :: Task where
  "task_report =
     \<lparr>id' = PInt 2, title = PStr ''Write report'', description = PStr '''',
      status = PStr ''pending'',
      created_at = PStr ''2024-03-01T09:05:00.000003'',
      updated_at = PStr ''2024-03-01T09:05:00.000004''\<rparr>"

definition task_bank :: Task where
  "task_bank =
     \<lparr>id' = PInt 2, title = PStr ''Call bank'', description = PStr '''',
      status = PStr ''pending'',
      created_at = PStr ''2024-03-01T09:10:00.000005'',
      updated_at = PStr ''2024-03-01T09:10:00.000006''\<rparr>"

definition reissue_calls :: "call list" where
  "reissue_calls =
     [Add ''Buy milk'' '''', Add ''Write report'' '''', Delete (PInt 1), Add ''Call bank'' '''']"

definition reissue_world :: world where
  "reissue_world =
     \<lparr>session_tasks = Some [to_dict task_report, to_dict task_bank],
      clock = example_clock, ticks = 6\<rparr>"

definition task_milk :: Task where
  "task_milk =
     \<lparr>id' = PInt 1, title = PStr ''Buy milk'', description = PStr '''',
      status = PStr ''pending'',
      created_at = PStr ''2024-03-01T09:00:00.000001'',
      updated_at = PStr ''2024-03-01T09:00:00.000002''\<rparr>"

definition milk_manager :: TaskManager where
  "milk_manager = \<lparr>tasks = [task_milk]\<rparr>"

definition milk_world :: world where
  "milk_world = \<lparr>session_tasks = Some [to_dict task_milk], clock = example_clock, ticks = 2\<rparr>"

text \<open>
  A clock that is set back between its second and its third reading, as a wall clock
  in local time is at the end of daylight saving time, and the states of a session on
  it; the keyword arguments of an update and the tasks that result.
\<close>

definition regress_clock :: "nat \<Rightarrow> string" where
  "regress_clock =
     clock_of [''2024-11-03T01:59:58.000001'', ''2024-11-03T01:59:58.000002'',
               ''2024-11-03T01:00:03.000003'']"

definition task_before :: Task where
  "task_before =
     \<lparr>id' = PInt 1, title = PStr ''Buy milk'', description = PStr '''',
      status = PStr ''pending'',
      created_at = PStr ''2024-11-03T01:59:58.000001'',
      updated_at = PStr ''2024-11-03T01:59:58.000002''\<rparr>"

definition task_after :: Task where
  "task_after =
     \<lparr>id' = PInt 1, title = PStr ''Buy milk'', description = PStr '''',
      status = PStr ''completed'',
      created_at = PStr ''2024-11-03T01:59:58.000001'',
      updated_at = PStr ''2024-11-03T01:00:03.000003''\<rparr>"

definition world_before :: world where
  "world_before = \<lparr>session_tasks = Some [to_dict task_before], clock = regress_clock, ticks = 2\<rparr>"

definition world_after :: world where
  "world_after = \<lparr>session_tasks = Some [to_dict task_after], clock = regress_clock, ticks = 3\<rparr>"







text \<open>
  An update that leaves the data model, the task and the store after it, and a sequence
  of calls that stays within it.
\<close>

definition archive_kwargs :: "(string \<times> pyval) list" where
  "archive_kwargs =
     [(''status'', PStr ''archived''), (''created_at'', PStr ''2099-01-01T00:00:00'')]"

definition task_archived :: Task where
  "task_archived =
     \<lparr>id' = PInt 1, title = PStr ''Buy milk'', description = PStr '''',
      status = PStr ''archived'',
      created_at = PStr ''2099-01-01T00:00:00'',
      updated_at = PStr ''2024-03-01T09:05:00.000003''\<rparr>"

definition archived_world :: world where
  "archived_world =
     \<lparr>session_tasks = Some [to_dict task_archived], clock = example_clock, ticks = 3\<rparr>"

definition example_calls :: "call list" where
  "example_calls =
     [Add ''Buy milk'' '''', Update (PInt 1) [(''status'', PStr ''completed'')], Rerun,
      Add ''Write report'' ''monthly'', Update (PInt 2) [(''title'', PStr ''Write the report'')],
      Delete (PInt 1)]"

section \<open>Serialization\<close>

lemmas run_defs =
  session_def fresh_def TaskManager_init_def load_tasks_def add_task_def delete_task_def
  update_task_def Task_init_def generate_id_def now_isoformat_def save_tasks_def
  to_dict_def from_dict_def getitem_def setattr_if_hasattr_def setattr_def attributes_def

lemma getitem_to_dict:
  "getitem (to_dict t) ''id'' = Inr (id' t)"
  "getitem (to_dict t) ''title'' = Inr (title t)"
  "getitem (to_dict t) ''description'' = Inr (description t)"
  "getitem (to_dict t) ''status'' = Inr (status t)"
  "getitem (to_dict t) ''created_at'' = Inr (created_at t)"
  "getitem (to_dict t) ''updated_at'' = Inr (updated_at t)"
  by (simp_all add: getitem_def to_dict_def)

lemma Task_init_fields:
  "title (fst (Task_init ti de st w)) = ti"
  "description (fst (Task_init ti de st w)) = de"
  "status (fst (Task_init ti de st w)) = st"
  "id' (fst (Task_init ti de st w)) = PInt (generate_id w)"
  "created_at (fst (Task_init ti de st w)) = PStr (clock w (ticks w))"
  "updated_at (fst (Task_init ti de st w)) = PStr (clock w (Suc (ticks w)))"
  by (simp_all add: Task_init_def now_isoformat_def)

lemma Task_init_world:
  "snd (Task_init ti de st w) = w\<lparr>ticks := Suc (Suc (ticks w))\<rparr>"
  by (simp add: Task_init_def now_isoformat_def)

lemma from_dict_to_dict:
  "from_dict (to_dict t) w = (Inr t, w\<lparr>ticks := Suc (Suc (ticks w))\<rparr>)"
  by (simp add: from_dict_def getitem_to_dict Task_init_def now_isoformat_def)

text \<open>
  C7. Deserializing the serialization of a task gives the task back, equal in all six
  fields: the id and the two timestamps that the constructor generated are replaced by
  the stored ones.
\<close>

theorem from_dict_to_dict_roundtrip: "fst (from_dict (to_dict t) w) = Inr t"
  by (simp add: from_dict_to_dict)

lemma getitem_absent: "key \<notin> fst ` set data \<Longrightarrow> getitem data key = Inl (KeyError key)"
  by (simp add: getitem_def map_of_eq_None_iff [THEN iffD2])

lemma getitem_present: "key \<in> fst ` set data \<Longrightarrow> \<exists>v. getitem data key = Inr v"
proof -
  assume "key \<in> fst ` set data"
  then have "map_of data key \<noteq> None" by (simp add: map_of_eq_None_iff)
  then obtain v where "map_of data key = Some v" by blast
  then show ?thesis by (simp add: getitem_def)
qed

lemma from_dict_cases:
  assumes "getitem data ''title'' = Inr ti" "getitem data ''description'' = Inr de"
    "getitem data ''status'' = Inr st"
  shows "fst (from_dict data w) =
    (case getitem data ''id'' of Inl e \<Rightarrow> Inl e | Inr i \<Rightarrow>
     case getitem data ''created_at'' of Inl e \<Rightarrow> Inl e | Inr c \<Rightarrow>
     case getitem data ''updated_at'' of Inl e \<Rightarrow> Inl e | Inr u \<Rightarrow>
       Inr (fst (Task_init ti de st w)\<lparr>id' := i, created_at := c, updated_at := u\<rparr>))"
  using assms by (simp add: from_dict_def split: prod.splits sum.splits)

lemma from_dict_all_present:
  assumes "set attributes \<subseteq> fst ` set data"
  shows "\<exists>t. fst (from_dict data w) = Inr t"
proof -
  obtain ti where 1: "getitem data ''title'' = Inr ti"
    using assms getitem_present [of "''title''" data] by (auto simp: attributes_def)
  obtain de where 2: "getitem data ''description'' = Inr de"
    using assms getitem_present [of "''description''" data] by (auto simp: attributes_def)
  obtain st where 3: "getitem data ''status'' = Inr st"
    using assms getitem_present [of "''status''" data] by (auto simp: attributes_def)
  obtain i where 4: "getitem data ''id'' = Inr i"
    using assms getitem_present [of "''id''" data] by (auto simp: attributes_def)
  obtain c where 5: "getitem data ''created_at'' = Inr c"
    using assms getitem_present [of "''created_at''" data] by (auto simp: attributes_def)
  obtain u where 6: "getitem data ''updated_at'' = Inr u"
    using assms getitem_present [of "''updated_at''" data] by (auto simp: attributes_def)
  show ?thesis by (simp add: from_dict_cases [OF 1 2 3] 4 5 6)
qed

lemma from_dict_some_absent:
  assumes "\<not> set attributes \<subseteq> fst ` set data"
  shows "\<exists>key \<in> set attributes. key \<notin> fst ` set data \<and> fst (from_dict data w) = Inl (KeyError key)"
proof (cases "''title'' \<in> fst ` set data")
  case False
  then have "fst (from_dict data w) = Inl (KeyError ''title'')"
    by (simp add: from_dict_def getitem_absent)
  with False show ?thesis by (simp add: attributes_def)
next
  case True
  then obtain ti where 1: "getitem data ''title'' = Inr ti" using getitem_present by blast
  show ?thesis
  proof (cases "''description'' \<in> fst ` set data")
    case False
    then have "fst (from_dict data w) = Inl (KeyError ''description'')"
      by (simp add: from_dict_def getitem_absent 1)
    with False show ?thesis by (simp add: attributes_def)
  next
    case True
    then obtain de where 2: "getitem data ''description'' = Inr de" using getitem_present by blast
    show ?thesis
    proof (cases "''status'' \<in> fst ` set data")
      case False
      then have "fst (from_dict data w) = Inl (KeyError ''status'')"
        by (simp add: from_dict_def getitem_absent 1 2)
      with False show ?thesis by (simp add: attributes_def)
    next
      case True
      then obtain st where 3: "getitem data ''status'' = Inr st" using getitem_present by blast
      note fd = from_dict_cases [OF 1 2 3]
      show ?thesis
      proof (cases "''id'' \<in> fst ` set data")
        case False
        then have "fst (from_dict data w) = Inl (KeyError ''id'')"
          by (simp add: fd getitem_absent)
        with False show ?thesis by (simp add: attributes_def)
      next
        case True
        then obtain i where 4: "getitem data ''id'' = Inr i" using getitem_present by blast
        show ?thesis
        proof (cases "''created_at'' \<in> fst ` set data")
          case False
          then have "fst (from_dict data w) = Inl (KeyError ''created_at'')"
            by (simp add: fd 4 getitem_absent)
          with False show ?thesis by (simp add: attributes_def)
        next
          case c: True
          then obtain c where 5: "getitem data ''created_at'' = Inr c"
            using getitem_present by blast
          have u: "''updated_at'' \<notin> fst ` set data"
            using assms \<open>''title'' \<in> fst ` set data\<close> \<open>''description'' \<in> fst ` set data\<close>
              \<open>''status'' \<in> fst ` set data\<close> \<open>''id'' \<in> fst ` set data\<close> c
            by (simp add: attributes_def)
          then have "fst (from_dict data w) = Inl (KeyError ''updated_at'')"
            by (simp add: fd 4 5 getitem_absent)
          with u show ?thesis by (simp add: attributes_def)
        qed
      qed
    qed
  qed
qed

text \<open>
  C10. Deserialization is partial. \<open>from_dict\<close> returns a task when the record has all
  six keys, and raises KeyError, for a key of the six that the record lacks, when one of
  them is missing.
\<close>

theorem from_dict_partial:
  "(set attributes \<subseteq> fst ` set data \<longrightarrow> (\<exists>t. fst (from_dict data w) = Inr t)) \<and>
   (\<not> set attributes \<subseteq> fst ` set data \<longrightarrow>
      (\<exists>key \<in> set attributes. key \<notin> fst ` set data \<and> fst (from_dict data w) = Inl (KeyError key)))"
  using from_dict_all_present [of data w] from_dict_some_absent [of data w] by blast

theorem from_dict_partial_witness:
  "set attributes \<subseteq> fst ` set [(''id'', PInt 1), (''title'', PStr ''Buy milk''),
       (''description'', PStr ''''), (''status'', PStr ''pending''),
       (''created_at'', PStr ''2024-03-01T09:00:00.000001''),
       (''updated_at'', PStr ''2024-03-01T09:00:00.000002'')] \<and>
   (\<exists>t. fst (from_dict [(''id'', PInt 1), (''title'', PStr ''Buy milk''),
       (''description'', PStr ''''), (''status'', PStr ''pending''),
       (''created_at'', PStr ''2024-03-01T09:00:00.000001''),
       (''updated_at'', PStr ''2024-03-01T09:00:00.000002'')] (fresh example_clock)) = Inr t) \<and>
   \<not> set attributes \<subseteq> fst ` set [(''id'', PInt 1), (''title'', PStr ''Buy milk'')] \<and>
   (\<exists>key. fst (from_dict [(''id'', PInt 1), (''title'', PStr ''Buy milk'')] (fresh example_clock)) =
      Inl (KeyError key))"
proof -
  have 1: "set attributes \<subseteq> fst ` set [(''id'', PInt 1), (''title'', PStr ''Buy milk''),
       (''description'', PStr ''''), (''status'', PStr ''pending''),
       (''created_at'', PStr ''2024-03-01T09:00:00.000001''),
       (''updated_at'', PStr ''2024-03-01T09:00:00.000002'')]"
    by (simp add: attributes_def)
  have 2: "\<not> set attributes \<subseteq> fst ` set [(''id'', PInt 1), (''title'', PStr ''Buy milk'')]"
    by (simp add: attributes_def)
  show ?thesis
    using 1 2 from_dict_partial [of "[(''id'', PInt 1), (''title'', PStr ''Buy milk''),
       (''description'', PStr ''''), (''status'', PStr ''pending''),
       (''created_at'', PStr ''2024-03-01T09:00:00.000001''),
       (''updated_at'', PStr ''2024-03-01T09:00:00.000002'')]" "fresh example_clock"]
      from_dict_partial [of "[(''id'', PInt 1), (''title'', PStr ''Buy milk'')]" "fresh example_clock"]
    by blast
qed

section \<open>Adding a task\<close>

text \<open>
  \<open>add_task\<close> itself does not look at the title: called with the empty title on a new
  session, it constructs the task, appends it and stores it in the snapshot.
\<close>

theorem add_task_accepts_empty_title:
  "session example_clock [Add '''' ''x''] =
     Inr (\<lparr>tasks = [\<lparr>id' = PInt 1, title = PStr '''', description = PStr ''x'',
                      status = PStr ''pending'',
                      created_at = PStr ''2024-03-01T09:00:00.000001'',
                      updated_at = PStr ''2024-03-01T09:00:00.000002''\<rparr>]\<rparr>,
          \<lparr>session_tasks = Some [[(''id'', PInt 1), (''title'', PStr ''''),
              (''description'', PStr ''x''), (''status'', PStr ''pending''),
              (''created_at'', PStr ''2024-03-01T09:00:00.000001''),
              (''updated_at'', PStr ''2024-03-01T09:00:00.000002'')]],
            clock = example_clock, ticks = 2\<rparr>)"
  by (simp add: run_defs example_clock_def clock_of_def)

text \<open>
  C1 (as amended). The handler of the Add Task button rejects the empty title before
  any task is constructed: it reports the error and leaves the manager, with its
  collection, and the session store, with its snapshot, as they were.
\<close>

theorem add_task_button_rejects_empty_title:
  "add_task_button '''' description' m w = (Error ''Title cannot be empty!'', m, w)"
  by (simp add: add_task_button_def)

section \<open>The operations of the manager\<close>

lemma example_clock_simps:
  "example_clock 0 = ''2024-03-01T09:00:00.000001''"
  "example_clock (Suc 0) = ''2024-03-01T09:00:00.000002''"
  "example_clock (Suc (Suc 0)) = ''2024-03-01T09:05:00.000003''"
  "example_clock (Suc (Suc (Suc 0))) = ''2024-03-01T09:05:00.000004''"
  "example_clock (Suc (Suc (Suc (Suc 0)))) = ''2024-03-01T09:10:00.000005''"
  "example_clock (Suc (Suc (Suc (Suc (Suc 0))))) = ''2024-03-01T09:10:00.000006''"
  by (simp_all add: example_clock_def clock_of_def)

lemma session_empty: "session example_clock [] = Inr (new_manager, new_world)"
  by (simp add: run_defs new_manager_def new_world_def)

lemma session_reissue:
  "session example_clock reissue_calls = Inr (\<lparr>tasks = [task_report, task_bank]\<rparr>, reissue_world)"
  by (simp add: run_defs reissue_calls_def reissue_world_def task_report_def task_bank_def
      example_clock_simps eval_nat_numeral)

text \<open>
  C2. \<open>get_task_by_id\<close> of the id of a task of the collection returns that task: this
  needs the ids to be unique, as the docstring of \<open>_generate_id\<close> says they are. They
  are not. After two tasks are added, the first is deleted and a third is added, the
  collection holds two tasks with id 2, and the lookup of the id of the second one returns
  the first one.
\<close>

theorem get_task_by_id_reissued_id:
  "session example_clock reissue_calls = Inr (\<lparr>tasks = [task_report, task_bank]\<rparr>, reissue_world) \<and>
   get_task_by_id [task_report, task_bank] (id' task_bank) = Some task_report \<and>
   task_report \<noteq> task_bank"
  by (simp add: session_reissue) (simp add: task_report_def task_bank_def)

text \<open>
  C3. In the same state \<open>delete_task\<close> of id 2 removes the first entry with that id and
  returns True, and the lookup of id 2 afterwards still finds a task: the one that was
  given the id a second time.
\<close>

theorem delete_task_reissued_id:
  "session example_clock reissue_calls = Inr (\<lparr>tasks = [task_report, task_bank]\<rparr>, reissue_world) \<and>
   delete_task (PInt 2) \<lparr>tasks = [task_report, task_bank]\<rparr> reissue_world =
     (True, \<lparr>tasks = [task_bank]\<rparr>, reissue_world\<lparr>session_tasks := Some [to_dict task_bank]\<rparr>) \<and>
   get_task_by_id [task_bank] (PInt 2) = Some task_bank"
  by (simp add: session_reissue) (simp add: delete_task_def save_tasks_def task_report_def task_bank_def)

lemma add_milk:
  "add_task ''Buy milk'' '''' new_manager new_world = (task_milk, milk_manager, milk_world)"
  by (simp add: add_task_def Task_init_def generate_id_def now_isoformat_def save_tasks_def
      new_manager_def new_world_def task_milk_def milk_manager_def milk_world_def
      to_dict_def example_clock_simps eval_nat_numeral)

lemma load_list_to_dict:
  "load_list (map to_dict ts) w = (Inr ts, w\<lparr>ticks := ticks w + 2 * length ts\<rparr>)"
proof (induction ts arbitrary: w)
  case Nil
  show ?case by simp
next
  case (Cons t ts)
  show ?case by (simp add: from_dict_to_dict Cons.IH)
qed

lemma TaskManager_init_snapshot:
  assumes "session_tasks w = Some (map to_dict ts)"
  shows "TaskManager_init w = (Inr \<lparr>tasks = ts\<rparr>, w\<lparr>ticks := ticks w + 2 * length ts\<rparr>)"
  using assms by (simp add: TaskManager_init_def load_tasks_def load_list_to_dict)

lemma TaskManager_init_no_snapshot:
  assumes "session_tasks w = None"
  shows "TaskManager_init w = (Inr \<lparr>tasks = []\<rparr>, w\<lparr>session_tasks := Some []\<rparr>)"
  using assms by (simp add: TaskManager_init_def load_tasks_def)


lemma delete_task_Some:
  assumes "get_task_by_id (tasks m) task_id = Some task"
  shows "delete_task task_id m w =
    (True, m\<lparr>tasks := remove_found (tasks m) task_id\<rparr>,
     w\<lparr>session_tasks := Some (map to_dict (remove_found (tasks m) task_id))\<rparr>)"
  using assms by (simp add: delete_task_def save_tasks_def Let_def)

lemma delete_task_None:
  assumes "get_task_by_id (tasks m) task_id = None"
  shows "delete_task task_id m w = (False, m, w)"
  using assms by (simp add: delete_task_def)



text \<open>
  C4 (as amended). For a manager that agrees with the snapshot, \<open>add_task\<close> returns a
  new task whose id is the size of the collection plus one, with the title and the
  description given, status pending, \<open>created_at\<close> the first and \<open>updated_at\<close> the second
  of two consecutive readings of the clock, and appends it at the end of the collection.
\<close>

theorem add_task_result:
  assumes "in_sync m w"
  shows "case add_task title' description' m w of (task, m', w') \<Rightarrow>
           id' task = PInt (int (length (tasks m)) + 1) \<and>
           title task = PStr title' \<and> description task = PStr description' \<and>
           status task = PStr ''pending'' \<and>
           created_at task = PStr (clock w (ticks w)) \<and>
           updated_at task = PStr (clock w (Suc (ticks w))) \<and>
           tasks m' = tasks m @ [task]"
  using assms
  by (simp add: add_task_def Task_init_def generate_id_def now_isoformat_def in_sync_def Let_def)

theorem add_task_result_witness:
  "in_sync new_manager new_world \<and>
   add_task ''Buy milk'' '''' new_manager new_world = (task_milk, milk_manager, milk_world) \<and>
   id' task_milk = PInt 1 \<and> status task_milk = PStr ''pending'' \<and>
   created_at task_milk = PStr (example_clock 0) \<and>
   updated_at task_milk = PStr (example_clock 1) \<and>
   tasks milk_manager = [task_milk]"
proof -
  have s: "in_sync new_manager new_world"
    by (simp add: in_sync_def new_manager_def new_world_def)
  have l: "tasks new_manager = []" "clock new_world = example_clock" "ticks new_world = 0"
    by (simp_all add: new_manager_def new_world_def)
  show ?thesis
    using add_task_result [OF s, of "''Buy milk''" "''''"] s
    by (simp add: add_milk l)
qed

text \<open>
  The two timestamps of a new task are two readings of the clock, one after the other:
  on a clock that advances between them they differ.
\<close>

theorem add_task_two_clock_readings:
  "session example_clock [] = Inr (new_manager, new_world) \<and>
   add_task ''Buy milk'' '''' new_manager new_world = (task_milk, milk_manager, milk_world) \<and>
   created_at task_milk = PStr ''2024-03-01T09:00:00.000001'' \<and>
   updated_at task_milk = PStr ''2024-03-01T09:00:00.000002'' \<and>
   created_at task_milk \<noteq> updated_at task_milk"
  by (simp add: session_empty add_milk) (simp add: task_milk_def)

section \<open>Updating a task\<close>

subsection \<open>Lookup by id\<close>


lemma get_task_by_id_Some_mem: "get_task_by_id ts task_id = Some task \<Longrightarrow> task \<in> set ts"
  by (induction ts) (auto split: if_splits)


lemma get_task_by_id_find: "get_task_by_id ts task_id = find (\<lambda>t. id' t = task_id) ts"
  by (induction ts) simp_all


lemma list_all_assign_found:
  assumes "list_all P ts" "P t"
  shows "list_all P (assign_found ts task_id t)"
  using assms by (induction ts) simp_all

lemma list_all_remove_found:
  assumes "list_all P ts"
  shows "list_all P (remove_found ts task_id)"
  using assms by (induction ts) simp_all

subsection \<open>The loop over the keywords\<close>

lemma provided_absent: "key \<notin> fst ` set kwargs \<Longrightarrow> provided kwargs key old = old"
  by (simp add: provided_def map_of_eq_None_iff [THEN iffD2])

lemma provided_step:
  assumes "k \<notin> fst ` set kwargs"
  shows "provided kwargs key (if k = key then v else old) = provided ((k, v) # kwargs) key old"
  using assms by (simp add: provided_def map_of_eq_None_iff [THEN iffD2])

lemma setattr_fields:
  "id' (setattr task k v) = (if k = ''id'' then v else id' task)"
  "title (setattr task k v) = (if k = ''title'' then v else title task)"
  "description (setattr task k v) = (if k = ''description'' then v else description task)"
  "status (setattr task k v) = (if k = ''status'' then v else status task)"
  "created_at (setattr task k v) = (if k = ''created_at'' then v else created_at task)"
  "updated_at (setattr task k v) = (if k = ''updated_at'' then v else updated_at task)"
  by (simp_all add: setattr_def)

lemma not_attribute:
  assumes "k \<notin> set attributes"
  shows "k \<noteq> ''id''" "k \<noteq> ''title''" "k \<noteq> ''description''" "k \<noteq> ''status''"
      "k \<noteq> ''created_at''" "k \<noteq> ''updated_at''"
  using assms by (simp_all add: attributes_def)

lemma step_fields:
  "id' (if k \<in> set attributes then setattr task k v else task) =
     (if k = ''id'' then v else id' task)"
  "title (if k \<in> set attributes then setattr task k v else task) =
     (if k = ''title'' then v else title task)"
  "description (if k \<in> set attributes then setattr task k v else task) =
     (if k = ''description'' then v else description task)"
  "status (if k \<in> set attributes then setattr task k v else task) =
     (if k = ''status'' then v else status task)"
  "created_at (if k \<in> set attributes then setattr task k v else task) =
     (if k = ''created_at'' then v else created_at task)"
  "updated_at (if k \<in> set attributes then setattr task k v else task) =
     (if k = ''updated_at'' then v else updated_at task)"
  by (cases "k \<in> set attributes"; simp add: setattr_fields not_attribute)+

lemma raising_names_not_attributes:
  assumes "k \<in> set attributes"
  shows "k \<notin> set raising_names"
  using assms by (auto simp: attributes_def raising_names_def)

lemma setattr_if_hasattr_plain:
  assumes "k \<notin> set raising_names"
  shows "setattr_if_hasattr k v (task, hidden) =
     Inr (if k \<in> set attributes then setattr task k v else task, hidden)"
  using assms by (simp add: setattr_if_hasattr_def raising_names_def)

lemma no_raising_name_Cons:
  "no_raising_name ((k, v) # kwargs) \<longleftrightarrow> k \<notin> set raising_names \<and> no_raising_name kwargs"
  by (simp add: no_raising_name_def)

lemma no_raising_name_parameters:
  assumes "no_raising_name kwargs"
  shows "''self'' \<notin> set (map fst kwargs)" "''task_id'' \<notin> set (map fst kwargs)"
  using assms by (auto simp: no_raising_name_def raising_names_def list_all_iff)

lemma set_items_ok:
  assumes "distinct (map fst kwargs)" "no_raising_name kwargs"
  shows "set_items kwargs (task, hidden) =
    (None,
     \<lparr>id' = provided kwargs ''id'' (id' task),
      title = provided kwargs ''title'' (title task),
      description = provided kwargs ''description'' (description task),
      status = provided kwargs ''status'' (status task),
      created_at = provided kwargs ''created_at'' (created_at task),
      updated_at = provided kwargs ''updated_at'' (updated_at task)\<rparr>, hidden)"
  using assms
proof (induction kwargs arbitrary: task)
  case Nil
  show ?case by (simp add: provided_def)
next
  case (Cons kv kwargs)
  obtain k v where kv: "kv = (k, v)" by (cases kv)
  from Cons.prems kv have k: "k \<notin> fst ` set kwargs" and d: "distinct (map fst kwargs)"
    and r: "k \<notin> set raising_names" and n: "no_raising_name kwargs"
    by (simp_all add: no_raising_name_Cons)
  show ?case
    unfolding kv
    by (simp only: set_items.simps setattr_if_hasattr_plain [OF r] sum.case
        Cons.IH [OF d n] step_fields provided_step [OF k])
qed


subsection \<open>How a call ends\<close>


lemma update_task_None:
  assumes "get_task_by_id (tasks m) task_id = None"
    "''self'' \<notin> set (map fst kwargs)" "''task_id'' \<notin> set (map fst kwargs)"
  shows "update_task task_id kwargs m w = (Inr False, m, w)"
  using assms by (simp add: update_task_def)

lemma update_task_Some:
  assumes "get_task_by_id (tasks m) task_id = Some task"
    "''self'' \<notin> set (map fst kwargs)" "''task_id'' \<notin> set (map fst kwargs)"
    "set_items kwargs (task, False) = (None, task1, False)"
  shows "update_task task_id kwargs m w =
    (Inr True,
     m\<lparr>tasks := assign_found (tasks m) task_id (task1\<lparr>updated_at := PStr (clock w (ticks w))\<rparr>)\<rparr>,
     w\<lparr>ticks := Suc (ticks w),
       session_tasks := Some (map to_dict (assign_found (tasks m) task_id
         (task1\<lparr>updated_at := PStr (clock w (ticks w))\<rparr>)))\<rparr>)"
  using assms by (simp add: update_task_def now_isoformat_def save_tasks_def Let_def)








section \<open>What every session keeps\<close>

lemma add_task_eq:
  "add_task title' description' m w =
     (\<lparr>id' = PInt (generate_id w), title = PStr title', description = PStr description',
       status = PStr ''pending'', created_at = PStr (clock w (ticks w)),
       updated_at = PStr (clock w (Suc (ticks w)))\<rparr>,
      m\<lparr>tasks := tasks m @
         [\<lparr>id' = PInt (generate_id w), title = PStr title', description = PStr description',
           status = PStr ''pending'', created_at = PStr (clock w (ticks w)),
           updated_at = PStr (clock w (Suc (ticks w)))\<rparr>]\<rparr>,
      w\<lparr>ticks := Suc (Suc (ticks w)),
        session_tasks := Some (map to_dict (tasks m @
         [\<lparr>id' = PInt (generate_id w), title = PStr title', description = PStr description',
           status = PStr ''pending'', created_at = PStr (clock w (ticks w)),
           updated_at = PStr (clock w (Suc (ticks w)))\<rparr>]))\<rparr>)"
  by (simp add: add_task_def Task_init_def now_isoformat_def save_tasks_def Let_def)

lemma TaskManager_init_in_sync:
  assumes "in_sync m w"
  shows "TaskManager_init w = (Inr m, w\<lparr>ticks := ticks w + 2 * length (tasks m)\<rparr>)"
  using assms by (simp add: in_sync_def TaskManager_init_snapshot)






lemma session_start:
  "TaskManager_init (fresh readings) =
     (Inr \<lparr>tasks = []\<rparr>, \<lparr>session_tasks = Some [], clock = readings, ticks = 0\<rparr>)"
  by (simp add: TaskManager_init_no_snapshot fresh_def)



lemma mono_clock_of:
  assumes "sorted xs" "xs \<noteq> []"
  shows "mono (clock_of xs)"
proof (rule monoI)
  fix i j :: nat
  assume ij: "i \<le> j"
  have l: "last xs = xs ! (length xs - 1)"
    using assms(2) by (rule last_conv_nth)
  show "clock_of xs i \<le> clock_of xs j"
  proof (cases "j < length xs")
    case True
    with ij assms(1) show ?thesis
      by (simp add: clock_of_def sorted_nth_mono)
  next
    case False
    show ?thesis
    proof (cases "i < length xs")
      case True
      then have "xs ! i \<le> xs ! (length xs - 1)"
        using assms(1) by (simp add: sorted_nth_mono)
      with True False l show ?thesis by (simp add: clock_of_def)
    next
      case False
      with \<open>\<not> j < length xs\<close> show ?thesis by (simp add: clock_of_def)
    qed
  qed
qed

lemma mono_example_clock: "mono example_clock"
  unfolding example_clock_def by (rule mono_clock_of) simp_all


lemma regress_clock_simps:
  "regress_clock 0 = ''2024-11-03T01:59:58.000001''"
  "regress_clock (Suc 0) = ''2024-11-03T01:59:58.000002''"
  "regress_clock (Suc (Suc 0)) = ''2024-11-03T01:00:03.000003''"
  by (simp_all add: regress_clock_def clock_of_def)


lemma set_items_status:
  "set_items [(''status'', v)] (task, False) = (None, task\<lparr>status := v\<rparr>, False)"
  by (simp add: setattr_if_hasattr_def setattr_def attributes_def)



lemma update_regress:
  "update_task (PInt 1) [(''status'', PStr ''completed'')] \<lparr>tasks = [task_before]\<rparr> world_before =
     (Inr True, \<lparr>tasks = [task_after]\<rparr>, world_after)"
proof -
  have g: "get_task_by_id (tasks \<lparr>tasks = [task_before]\<rparr>) (PInt 1) = Some task_before"
    by (simp add: task_before_def)
  show ?thesis
    by (simp add: update_task_Some [OF g _ _ set_items_status])
       (simp add: task_before_def task_after_def world_before_def world_after_def
         to_dict_def regress_clock_simps eval_nat_numeral)
qed

lemma get_milk: "get_task_by_id (tasks milk_manager) (PInt 1) = Some task_milk"
  by (simp add: milk_manager_def task_milk_def)

lemma milk_clock: "clock milk_world (ticks milk_world) = ''2024-03-01T09:05:00.000003''"
  by (simp add: milk_world_def example_clock_simps eval_nat_numeral)






section \<open>The snapshot in the session store\<close>




section \<open>Statistics\<close>


section \<open>Sessions that keep the data model\<close>

lemma stamped_mono:
  assumes "stamped readings n t" "n \<le> n'"
  shows "stamped readings n' t"
  using assms by (auto simp: stamped_def intro: less_le_trans)

lemma list_all_stamped_mono:
  assumes "list_all (stamped readings n) ts" "n \<le> n'"
  shows "list_all (stamped readings n') ts"
  using assms by (auto simp: list_all_iff intro: stamped_mono)

lemma stamped_new:
  assumes "created_at t = PStr (readings n)" "updated_at t = PStr (readings (Suc n))"
  shows "stamped readings (Suc (Suc n)) t"
  unfolding stamped_def using assms
  by (intro exI [of _ "Suc n"] conjI exI [of _ n]) simp_all

lemma stamped_updated:
  assumes "stamped readings n task" "created_at task1 = created_at task"
  shows "stamped readings (Suc n) (task1\<lparr>updated_at := PStr (readings n)\<rparr>)"
proof -
  from assms(1) obtain j i where "j < n" "i \<le> j" "created_at task = PStr (readings i)"
    by (auto simp: stamped_def)
  then have "i \<le> n" "created_at (task1\<lparr>updated_at := PStr (readings n)\<rparr>) = PStr (readings i)"
    using assms(2) by simp_all
  then show ?thesis
    unfolding stamped_def
    by (intro exI [of _ n] conjI exI [of _ i]) simp_all
qed

lemma stamped_ts_le:
  assumes "stamped readings n t" "mono readings"
  shows "ts_le (created_at t) (updated_at t)"
proof -
  from assms(1) obtain j i where "i \<le> j" "created_at t = PStr (readings i)"
    "updated_at t = PStr (readings j)"
    by (auto simp: stamped_def)
  with assms(2) show ?thesis by (simp add: monoD)
qed

lemma conforming_item_step:
  assumes "conforming_item (k, v)"
  shows "k \<notin> set raising_names"
    and "created_at (if k \<in> set attributes then setattr task k v else task) = created_at task"
    and "status_ok task \<Longrightarrow> status_ok (if k \<in> set attributes then setattr task k v else task)"
  using assms by (auto simp: conforming_item_def status_ok_def step_fields)

lemma set_items_conforming:
  assumes "list_all conforming_item kwargs"
  shows "\<exists>task1. set_items kwargs (task, hidden) = (None, task1, hidden) \<and>
           created_at task1 = created_at task \<and> (status_ok task \<longrightarrow> status_ok task1)"
  using assms
proof (induction kwargs arbitrary: task)
  case Nil
  show ?case by simp
next
  case (Cons kv kwargs)
  obtain k v where kv: "kv = (k, v)" by (cases kv)
  from Cons.prems kv have c: "conforming_item (k, v)" and r: "list_all conforming_item kwargs"
    by simp_all
  note p = conforming_item_step [OF c]
  from Cons.IH [OF r, of "if k \<in> set attributes then setattr task k v else task"]
  obtain task1 where
    1: "set_items kwargs (if k \<in> set attributes then setattr task k v else task, hidden) =
          (None, task1, hidden)"
    and 2: "created_at task1 =
          created_at (if k \<in> set attributes then setattr task k v else task)"
    and 3: "status_ok (if k \<in> set attributes then setattr task k v else task) \<longrightarrow>
          status_ok task1"
    by blast
  have "set_items (kv # kwargs) (task, hidden) = (None, task1, hidden)"
    unfolding kv by (simp only: set_items.simps setattr_if_hasattr_plain [OF p(1)] sum.case 1)
  moreover have "created_at task1 = created_at task"
    using 2 by (simp only: p(2))
  moreover have "status_ok task \<longrightarrow> status_ok task1"
    using 3 p(3) by blast
  ultimately show ?case by blast
qed

lemma conforming_no_raising_name:
  assumes "list_all conforming_item kwargs"
  shows "no_raising_name kwargs"
  using assms
  by (induction kwargs) (auto simp: no_raising_name_def conforming_item_def)

lemma step_stamped:
  assumes "in_sync m w" "clock w = readings"
    and "list_all status_ok (tasks m)" "list_all (stamped readings (ticks w)) (tasks m)"
    and "conforming c"
  shows "\<exists>m' w'. step c (m, w) = Inr (m', w') \<and> in_sync m' w' \<and> clock w' = readings \<and>
           list_all status_ok (tasks m') \<and> list_all (stamped readings (ticks w')) (tasks m')"
proof (cases c)
  case (Add title' description')
  have "stamped readings (Suc (Suc (ticks w)))
     \<lparr>id' = PInt (generate_id w), title = PStr title', description = PStr description',
       status = PStr ''pending'', created_at = PStr (clock w (ticks w)),
       updated_at = PStr (clock w (Suc (ticks w)))\<rparr>"
    using assms(2) by (intro stamped_new) simp_all
  moreover have "list_all (stamped readings (Suc (Suc (ticks w)))) (tasks m)"
    using list_all_stamped_mono [OF assms(4)] by simp
  ultimately show ?thesis
    using assms(2,3) by (simp add: Add add_task_eq in_sync_def status_ok_def)
next
  case (Update task_id kwargs)
  from assms(5) have k: "list_all conforming_item kwargs" by (simp add: Update)
  note p = no_raising_name_parameters [OF conforming_no_raising_name [OF k]]
  show ?thesis
  proof (cases "get_task_by_id (tasks m) task_id")
    case None
    with assms show ?thesis by (simp add: Update update_task_None [OF None p])
  next
    case (Some task)
    from get_task_by_id_Some_mem [OF Some] assms(3,4)
    have t: "status_ok task" "stamped readings (ticks w) task"
      by (simp_all add: list_all_iff)
    from set_items_conforming [OF k, of task False] t(1) obtain task1 where
      s: "set_items kwargs (task, False) = (None, task1, False)"
      and c: "created_at task1 = created_at task" and o: "status_ok task1"
      by blast
    have n: "stamped readings (Suc (ticks w)) (task1\<lparr>updated_at := PStr (clock w (ticks w))\<rparr>)"
      using stamped_updated [OF t(2) c] assms(2) by simp
    have o': "status_ok (task1\<lparr>updated_at := PStr (clock w (ticks w))\<rparr>)"
      using o by (simp add: status_ok_def)
    have old: "list_all (stamped readings (Suc (ticks w))) (tasks m)"
      using list_all_stamped_mono [OF assms(4)] by simp
    from list_all_assign_found [OF old n] list_all_assign_found [OF assms(3) o']
    show ?thesis
      using assms(2) by (simp add: Update update_task_Some [OF Some p s] in_sync_def)
  qed
next
  case (Delete task_id)
  show ?thesis
  proof (cases "get_task_by_id (tasks m) task_id")
    case None
    with assms show ?thesis by (simp add: Delete delete_task_None)
  next
    case (Some task)
    from list_all_remove_found [OF assms(3)] list_all_remove_found [OF assms(4)]
    show ?thesis
      using assms(2) by (simp add: Delete delete_task_Some [OF Some] in_sync_def)
  qed
next
  case Rerun
  have "list_all (stamped readings (ticks w + 2 * length (tasks m))) (tasks m)"
    using list_all_stamped_mono [OF assms(4)] by simp
  then show ?thesis
    using assms(1,2,3) by (simp add: Rerun TaskManager_init_in_sync [OF assms(1)] in_sync_def)
qed

lemma run_stamped:
  assumes "in_sync m w" "clock w = readings"
    and "list_all status_ok (tasks m)" "list_all (stamped readings (ticks w)) (tasks m)"
    and "list_all conforming cs"
  shows "\<exists>m' w'. run cs (m, w) = Inr (m', w') \<and>
           list_all status_ok (tasks m') \<and> list_all (stamped readings (ticks w')) (tasks m')"
  using assms
proof (induction cs arbitrary: m w)
  case Nil
  then show ?case by simp
next
  case (Cons c cs)
  from Cons.prems(5) have c: "conforming c" and cs: "list_all conforming cs" by simp_all
  from step_stamped [OF Cons.prems(1-4) c] obtain m1 w1 where
    s: "step c (m, w) = Inr (m1, w1)" and i: "in_sync m1 w1" "clock w1 = readings"
      "list_all status_ok (tasks m1)" "list_all (stamped readings (ticks w1)) (tasks m1)"
    by blast
  from Cons.IH [OF i cs] s show ?case by simp
qed

lemma regress_add:
  "add_task ''Buy milk'' '''' \<lparr>tasks = []\<rparr>
     \<lparr>session_tasks = Some [], clock = regress_clock, ticks = 0\<rparr> =
     (task_before, \<lparr>tasks = [task_before]\<rparr>, world_before)"
  by (simp add: add_task_eq generate_id_def to_dict_def task_before_def world_before_def
      regress_clock_simps eval_nat_numeral)

text \<open>
  What the interface reaches when \<open>update_task\<close> is given a status outside the two and
  a \<open>created_at\<close>: a task whose status is neither pending nor completed and whose
  \<open>created_at\<close> is after its \<open>updated_at\<close>. And on the clock that was set back, the
  update to status completed alone leaves \<open>updated_at\<close> before \<open>created_at\<close>.
\<close>

theorem update_task_breaks_invariants:
  "session example_clock [Add ''Buy milk'' '''', Update (PInt 1) archive_kwargs] =
     Inr (\<lparr>tasks = [task_archived]\<rparr>, archived_world) \<and>
   \<not> status_ok task_archived \<and>
   \<not> ts_le (created_at task_archived) (updated_at task_archived) \<and>
   \<not> invariants [task_archived] \<and>
   session regress_clock [Add ''Buy milk'' '''', Update (PInt 1) [(''status'', PStr ''completed'')]] =
     Inr (\<lparr>tasks = [task_after]\<rparr>, world_after) \<and>
   \<not> ts_le (created_at task_after) (updated_at task_after) \<and>
   \<not> invariants [task_after]"
proof -
  have k: "distinct (map fst archive_kwargs)" "no_raising_name archive_kwargs"
    by (simp_all add: archive_kwargs_def no_raising_name_def raising_names_def)
  have u: "update_task (PInt 1) archive_kwargs milk_manager milk_world =
      (Inr True, \<lparr>tasks = [task_archived]\<rparr>, archived_world)"
    by (simp add: update_task_Some [OF get_milk no_raising_name_parameters [OF k(2)]
          set_items_ok [OF k]] milk_clock)
       (simp add: provided_def archive_kwargs_def task_milk_def task_archived_def
          milk_manager_def milk_world_def archived_world_def to_dict_def)
  have "session example_clock [Add ''Buy milk'' '''', Update (PInt 1) archive_kwargs] =
      Inr (\<lparr>tasks = [task_archived]\<rparr>, archived_world)"
    using add_milk u
    by (simp add: session_def session_start new_manager_def new_world_def)
  moreover have "session regress_clock
      [Add ''Buy milk'' '''', Update (PInt 1) [(''status'', PStr ''completed'')]] =
      Inr (\<lparr>tasks = [task_after]\<rparr>, world_after)"
    using regress_add update_regress
    by (simp add: session_def session_start)
  ultimately show ?thesis
    by (simp add: invariants_def status_ok_def task_archived_def task_after_def)
qed

text \<open>
  C6 (as amended). Take a new session on a clock whose readings never decrease, and
  any sequence of calls of the interface (add, update, delete, construction of the
  manager anew) whose updates have no keyword on which the call raises, do not assign
  \<open>created_at\<close>, and assign to \<open>status\<close> only pending or completed. Every call returns,
  and in the state reached every task has status pending or completed and an
  \<open>updated_at\<close> that is at least its \<open>created_at\<close>.
\<close>

theorem session_invariants:
  assumes "list_all conforming cs" "mono readings"
  shows "\<exists>m w. session readings cs = Inr (m, w) \<and>
           list_all (\<lambda>t. status_ok t \<and> ts_le (created_at t) (updated_at t)) (tasks m)"
proof -
  from run_stamped [OF _ _ _ _ assms(1), of "\<lparr>tasks = []\<rparr>"
      "\<lparr>session_tasks = Some [], clock = readings, ticks = 0\<rparr>" readings]
  obtain m w where r: "run cs (\<lparr>tasks = []\<rparr>,
      \<lparr>session_tasks = Some [], clock = readings, ticks = 0\<rparr>) = Inr (m, w)"
    and o: "list_all status_ok (tasks m)" and s: "list_all (stamped readings (ticks w)) (tasks m)"
    by (auto simp: in_sync_def)
  from r have "session readings cs = Inr (m, w)"
    by (simp add: session_def session_start)
  moreover from o s have
    "list_all (\<lambda>t. status_ok t \<and> ts_le (created_at t) (updated_at t)) (tasks m)"
    using stamped_ts_le [OF _ assms(2)] by (auto simp: list_all_iff)
  ultimately show ?thesis by blast
qed

theorem session_invariants_witness:
  "list_all conforming example_calls \<and> mono example_clock \<and>
   (\<exists>m w. session example_clock example_calls = Inr (m, w) \<and>
      list_all (\<lambda>t. status_ok t \<and> ts_le (created_at t) (updated_at t)) (tasks m))"
proof -
  have c: "list_all conforming example_calls"
    by (simp add: example_calls_def conforming_item_def raising_names_def)
  from session_invariants [OF c mono_example_clock] c mono_example_clock
  show ?thesis by blast
qed

end
